theory Spec2Isabelle
  imports Complex_Main "HOL-Library.Sublist" "HOL-Library.Log_Nat"
begin

section \<open>JavaScript values\<close>

text \<open>
  A JavaScript string is a sequence of UTF-16 code units; a code unit is modelled by its
  number. The handler never computes a new code unit, it only compares and copies them.
  \<open>js\<close> turns an ASCII literal into such a sequence.
\<close>

type_synonym jsstring = "nat list"

definition js :: "string \<Rightarrow> jsstring" where
  "js s = map of_char s"

text \<open>
  A value that may be \<open>undefined\<close> (a missing key, an index out of range) or \<open>null\<close>:
  the two are different values, and \<open>===\<close> tells them apart.
\<close>

datatype 'a field = Undefined | Null | Val 'a

text \<open>Reading an array by index: out of range the result is \<open>undefined\<close>.\<close>

definition element :: "'a list \<Rightarrow> nat \<Rightarrow> 'a field" where
  "element xs i = (if i < length xs then Val (xs ! i) else Undefined)"

text \<open>\<open>x || d\<close> for a string or undefined \<open>x\<close>: the empty string is falsy too.\<close>

fun orString :: "jsstring field \<Rightarrow> jsstring \<Rightarrow> jsstring" where
  "orString (Val s) d = (if s = [] then d else s)"
| "orString Undefined d = d"
| "orString Null d = d"

section \<open>The catalog and the template selector\<close>

text \<open>
  \<^verbatim>\<open>type Meme = { id; name; url; box_count; description }\<close>. The catalog is parsed JSON,
  so the description of an entry can be a string, \<open>null\<close>, or missing altogether.
\<close>

record meme =
  id' :: jsstring
  name :: jsstring
  url :: jsstring
  box_count :: int
  description :: "jsstring field"

text \<open>\<^verbatim>\<open>chosenMeme?.description\<close>: undefined when there is no chosen meme.\<close>

fun optDescription :: "meme field \<Rightarrow> jsstring field" where
  "optDescription (Val m) = description m"
| "optDescription Undefined = Undefined"
| "optDescription Null = Undefined"

text \<open>
  Numbers are IEEE doubles. A non-negative double is a rational \<open>m * 2^e\<close> with
  \<open>m < 2^53\<close> and \<open>e \<ge> -1074\<close>, so it is a multiple of \<open>2^-1074\<close>. The product of two
  doubles is the exact product rounded to the nearest double, a tie going to the one with
  the even significand.

  \<open>roundDouble x\<close> rounds a rational \<open>0 \<le> x < 2^1024\<close>. In units of \<open>2^-1074\<close> the value is
  \<open>X\<close>; when the integer part of \<open>X\<close> has \<open>l\<close> bits, the doubles around \<open>X\<close> are the multiples
  of \<open>2^p\<close> with \<open>p = l - 53\<close> (and \<open>p = 0\<close> up to 53 bits, where the subnormal doubles
  lie). \<open>X\<close> is rounded to the nearest multiple, a tie to the even one.
\<close>

definition roundHalfEven :: "rat \<Rightarrow> int" where
  "roundHalfEven y =
     (let f = \<lfloor>y\<rfloor>; d = y - of_int f
      in if d < 1 / 2 then f else if 1 / 2 < d then f + 1 else if even f then f else f + 1)"

definition scale :: nat where
  "scale = 1074"

definition roundDouble :: "rat \<Rightarrow> rat" where
  "roundDouble x =
     (let X = x * 2 ^ scale;
          p = floorlog 2 (nat \<lfloor>X\<rfloor>) - 53
      in of_int (roundHalfEven (X / 2 ^ p)) * 2 ^ p / 2 ^ scale)"

definition isDouble :: "rat \<Rightarrow> bool" where
  "isDouble x = (roundDouble x = x)"

text \<open>
  \<^verbatim>\<open>do { chosenMeme = memes[Math.floor(Math.random() * memes.length)] }
  while (chosenMeme?.description === null)\<close>

  The values of \<open>Math.random()\<close> are given as a list, one per round of the loop; each is
  a double of \<open>[0, 1)\<close>. The length of an array is an integer below \<open>2^32\<close>, hence a double,
  and \<open>Math.floor\<close> of a double is exact. \<open>None\<close> means that the list is used up and the
  loop is still running; \<open>Some c\<close> is the value of \<open>chosenMeme\<close> when the loop exits.
\<close>

definition randomIndex :: "rat \<Rightarrow> nat \<Rightarrow> nat" where
  "randomIndex r n = nat \<lfloor>roundDouble (r * of_nat n)\<rfloor>"

fun selectMeme :: "meme list \<Rightarrow> rat list \<Rightarrow> meme field option" where
  "selectMeme memes [] = None"
| "selectMeme memes (r # rs) =
     (let chosenMeme = element memes (randomIndex r (length memes))
      in if optDescription chosenMeme = Null then selectMeme memes rs
         else Some chosenMeme)"

section \<open>Regular expressions of the parser\<close>

text \<open>
  Line terminators (which \<open>.\<close> does not match) and the class \<open>\s\<close> of ECMAScript:
  white space, the space separators of Unicode, and the line terminators.
\<close>

definition isLineTerminator :: "nat \<Rightarrow> bool" where
  "isLineTerminator c = (c = 10 \<or> c = 13 \<or> c = 8232 \<or> c = 8233)"

definition isWhiteSpace :: "nat \<Rightarrow> bool" where
  "isWhiteSpace c =
     (c = 9 \<or> c = 11 \<or> c = 12 \<or> c = 32 \<or> c = 160 \<or> c = 5760 \<or> (8192 \<le> c \<and> c \<le> 8202)
      \<or> c = 8239 \<or> c = 8287 \<or> c = 12288 \<or> c = 65279 \<or> isLineTerminator c)"

definition isDigit :: "nat \<Rightarrow> bool" where
  "isDigit c = (48 \<le> c \<and> c \<le> 57)"

text \<open>
  Every pattern of the handler is a sequence of one-character atoms (a literal character,
  \<open>\d\<close> or \<open>\s\<close>) followed by the group \<open>(.*)\<close>.
\<close>

datatype atom = Lit nat | Digit | Space

fun atomMatches :: "atom \<Rightarrow> nat \<Rightarrow> bool" where
  "atomMatches (Lit a) c = (c = a)"
| "atomMatches Digit c = isDigit c"
| "atomMatches Space c = isWhiteSpace c"

definition lits :: "string \<Rightarrow> atom list" where
  "lits s = map Lit (js s)"

text \<open>The atoms matched against the start of a string: the rest of the string, if they match.\<close>

fun matchAtoms :: "atom list \<Rightarrow> jsstring \<Rightarrow> jsstring option" where
  "matchAtoms [] s = Some s"
| "matchAtoms (a # as) [] = None"
| "matchAtoms (a # as) (c # cs) = (if atomMatches a c then matchAtoms as cs else None)"

text \<open>
  The pattern \<open>atoms(.*)\<close> tried at the start of a string. The group is greedy and is the
  last item, so it takes every character up to the next line terminator. The result is
  the matched text and the text of the group.
\<close>

definition execAt :: "atom list \<Rightarrow> jsstring \<Rightarrow> (jsstring \<times> jsstring) option" where
  "execAt p s =
     (case matchAtoms p s of
        None \<Rightarrow> None
      | Some r \<Rightarrow>
          (let g = takeWhile (\<lambda>c. \<not> isLineTerminator c) r
           in Some (take (length p) s @ g, g)))"

text \<open>
  \<open>String.prototype.match\<close> with a pattern without the flag \<open>g\<close>: the leftmost match, as
  the array of the matched text and the group, or \<open>null\<close> (\<open>None\<close>).
\<close>

fun matchFirst :: "atom list \<Rightarrow> jsstring \<Rightarrow> jsstring list option" where
  "matchFirst p [] = (case execAt p [] of Some (m, g) \<Rightarrow> Some [m, g] | None \<Rightarrow> None)"
| "matchFirst p (c # cs) =
     (case execAt p (c # cs) of Some (m, g) \<Rightarrow> Some [m, g] | None \<Rightarrow> matchFirst p cs)"

text \<open>
  With the flag \<open>g\<close>: the matched texts of all matches from left to right, each search
  starting where the match before it ended (one further after an empty match).
\<close>

fun matchAll :: "atom list \<Rightarrow> jsstring \<Rightarrow> jsstring list" where
  "matchAll p [] = (case execAt p [] of Some (m, g) \<Rightarrow> [m] | None \<Rightarrow> [])"
| "matchAll p (c # cs) =
     (case execAt p (c # cs) of
        Some (m, g) \<Rightarrow> m # matchAll p (drop (max 1 (length m)) (c # cs))
      | None \<Rightarrow> matchAll p cs)"

text \<open>\<open>match\<close> with the flag \<open>g\<close> returns \<open>null\<close> rather than an empty array.\<close>

definition matchGlobal :: "atom list \<Rightarrow> jsstring \<Rightarrow> jsstring list option" where
  "matchGlobal p s = (case matchAll p s of [] \<Rightarrow> None | m # ms \<Rightarrow> Some (m # ms))"

text \<open>
  \<open>String.prototype.split\<close> with the separator \<^verbatim>\<open>": "\<close>: the string is cut at every
  occurrence of the separator, scanning from the left.
\<close>

fun splitColonSpace :: "jsstring \<Rightarrow> jsstring list" where
  "splitColonSpace [] = [[]]"
| "splitColonSpace [c] = [[c]]"
| "splitColonSpace (c # d # cs) =
     (if c = 58 \<and> d = 32 then [] # splitColonSpace cs
      else (case splitColonSpace (d # cs) of
              [] \<Rightarrow> [[c]]
            | piece # pieces \<Rightarrow> (c # piece) # pieces))"

text \<open>\<open>lastIndexOf\<close> of a character: the index of its last occurrence, or \<open>-1\<close>.\<close>

fun lastIndexFrom :: "nat \<Rightarrow> int \<Rightarrow> nat \<Rightarrow> jsstring \<Rightarrow> int" where
  "lastIndexFrom i found ch [] = found"
| "lastIndexFrom i found ch (c # cs) =
     lastIndexFrom (Suc i) (if c = ch then int i else found) ch cs"

definition lastIndexOf :: "jsstring \<Rightarrow> nat \<Rightarrow> int" where
  "lastIndexOf s ch = lastIndexFrom 0 (- 1) ch s"

text \<open>\<open>substring(start)\<close>: the start is clamped to the range of the string.\<close>

definition substring :: "jsstring \<Rightarrow> int \<Rightarrow> jsstring" where
  "substring s start = drop (nat (min (max start 0) (int (length s)))) s"

section \<open>The response parser\<close>

text \<open>
  \<^verbatim>\<open>/Caption\[\d\]:\s(.*)/g\<close>, \<^verbatim>\<open>/Caption\s\d\:\s(.*)/g\<close>, \<^verbatim>\<open>/Caption\d\:\s(.*)/g\<close>,
  \<^verbatim>\<open>/Invitation:\s(.*)/\<close> and \<^verbatim>\<open>/Invitation:\n(.*)/\<close>.
\<close>

definition captionBracket :: "atom list" where
  "captionBracket = lits ''Caption['' @ [Digit] @ lits '']:'' @ [Space]"

definition captionSpaced :: "atom list" where
  "captionSpaced = lits ''Caption'' @ [Space, Digit] @ lits '':'' @ [Space]"

definition captionPlain :: "atom list" where
  "captionPlain = lits ''Caption'' @ [Digit] @ lits '':'' @ [Space]"

definition invitationSpace :: "atom list" where
  "invitationSpace = lits ''Invitation:'' @ [Space]"

definition invitationNewline :: "atom list" where
  "invitationNewline = lits ''Invitation:'' @ [Lit 10]"

record caption =
  captionText :: "jsstring field"

text \<open>
  \<^verbatim>\<open>message.match(..) || message.match(..) || message.match(..) || []\<close>: the first
  pattern with a match decides.
\<close>

definition captionMatches :: "jsstring \<Rightarrow> jsstring list" where
  "captionMatches message =
     (case matchGlobal captionBracket message of
        Some ms \<Rightarrow> ms
      | None \<Rightarrow>
          (case matchGlobal captionSpaced message of
             Some ms \<Rightarrow> ms
           | None \<Rightarrow>
               (case matchGlobal captionPlain message of
                  Some ms \<Rightarrow> ms
                | None \<Rightarrow> [])))"

text \<open>\<^verbatim>\<open>const [, captionText] = caption.split(": ")\<close>: the second piece, if there is one.\<close>

definition parseCaptions :: "jsstring \<Rightarrow> caption list" where
  "parseCaptions message =
     map (\<lambda>c. \<lparr>captionText = element (splitColonSpace c) 1\<rparr>) (captionMatches message)"

definition invitationMatch :: "jsstring \<Rightarrow> jsstring list" where
  "invitationMatch message =
     (case matchFirst invitationSpace message of
        Some a \<Rightarrow> a
      | None \<Rightarrow>
          (case matchFirst invitationNewline message of
             Some a \<Rightarrow> a
           | None \<Rightarrow> []))"

text \<open>
  \<^verbatim>\<open>let invitation = (invitationMatch[0] || ": ").split(": ")[1]\<close>, replaced by the text
  after the last colon when \<^verbatim>\<open>invitationMatch.length === 0\<close>.
\<close>

definition parseInvitation :: "jsstring \<Rightarrow> jsstring field" where
  "parseInvitation message =
     (let im = invitationMatch message;
          invitation = element (splitColonSpace (orString (element im 0) (js '': ''))) 1
      in if length im = 0
         then Val (substring message (lastIndexOf message 58 + 1))
         else invitation)"

section \<open>The request handler\<close>

text \<open>
  What the handler reads from outside during one request: the request method, whether
  the catalog file exists and what it parses to, the values of \<open>Math.random()\<close>, the
  content of the chat completion (\<^verbatim>\<open>completion?.data?.choices[0]?.message?.content\<close>),
  the two credentials of the environment, the response of the render API, the count of
  the collection, the identifier made by \<open>uuidv4()\<close> and the time of \<open>new Date()\<close>.

  The body of the render response is read last, after the write to the store:
  \<open>response.json()\<close> either rejects (\<open>None\<close>: the body is not JSON) or resolves to a body
  \<open>memeData\<close>, given by its \<^verbatim>\<open>memeData?.data?.url\<close>. The calls before it (the chat
  completion, the render request, the count and the write) are modelled by the values
  they resolve to.
\<close>

record renderResponse =
  ok :: bool
  statusText :: jsstring
  json :: "jsstring field option"

record world =
  reqMethod :: "jsstring field"
  catalogExists :: bool
  catalog :: "meme list"
  randoms :: "rat list"
  completionContent :: "jsstring field"
  imgflipUsername :: "jsstring field"
  imgflipPassword :: "jsstring field"
  render :: renderResponse
  storedCount :: int
  newUuid :: jsstring
  currentTime :: nat

text \<open>The document written to the collection \<open>memes\<close>.\<close>

record storedMeme =
  imgFlipMemeId :: jsstring
  captions :: "caption list"
  invitation :: "jsstring field"
  created :: nat
  random' :: int

text \<open>
  The form fields of the render request: \<open>template_id\<close>, \<open>username\<close>, \<open>password\<close> and
  \<^verbatim>\<open>boxes[index][text]\<close>. \<open>URLSearchParams.append\<close> converts its value to a string
  of Unicode scalar values: a value that is not a string is appended as its name, and a
  surrogate code unit that is not part of a pair is replaced by \<open>U+FFFD\<close>.
\<close>

datatype param = TemplateId | Username | Password | BoxText nat

fun toString :: "jsstring field \<Rightarrow> jsstring" where
  "toString (Val s) = s"
| "toString Undefined = js ''undefined''"
| "toString Null = js ''null''"

definition isHighSurrogate :: "nat \<Rightarrow> bool" where
  "isHighSurrogate c = (55296 \<le> c \<and> c \<le> 56319)"

definition isLowSurrogate :: "nat \<Rightarrow> bool" where
  "isLowSurrogate c = (56320 \<le> c \<and> c \<le> 57343)"

fun toUSVString :: "jsstring \<Rightarrow> jsstring" where
  "toUSVString [] = []"
| "toUSVString [c] = [if isHighSurrogate c \<or> isLowSurrogate c then 65533 else c]"
| "toUSVString (c # d # cs) =
     (if isHighSurrogate c \<and> isLowSurrogate d then c # d # toUSVString cs
      else if isHighSurrogate c \<or> isLowSurrogate c then 65533 # toUSVString (d # cs)
      else c # toUSVString (d # cs))"

definition requestBody ::
  "meme \<Rightarrow> jsstring field \<Rightarrow> jsstring field \<Rightarrow> caption list \<Rightarrow> (param \<times> jsstring) list" where
  "requestBody chosenMeme username password caps =
     [(TemplateId, toUSVString (id' chosenMeme)),
      (Username, toUSVString (toString username)),
      (Password, toUSVString (toString password))]
     @ map (\<lambda>(index, c). (BoxText index, toUSVString (toString (captionText c))))
         (enumerate 0 caps)"

text \<open>
  The calls the handler makes, in order: the chat completion (with the three values put
  into the prompt), the render request, the log of a failed generation, the count of the
  collection and the write of the new document under its key.
\<close>

datatype call =
    CreateChatCompletion int jsstring "jsstring field"
  | CaptionImage "(param \<times> jsstring) list"
  | LogFailure jsstring jsstring jsstring "caption list" "jsstring field" jsstring
  | GetCount
  | SetDoc jsstring storedMeme

text \<open>The JSON sent back: an error, or the meme with its captions and invitation.\<close>

datatype data =
    ErrorData jsstring
  | MemeData "jsstring field" "caption list" "jsstring field"

text \<open>
  How a run of the handler ends: with a response, with the \<open>TypeError\<close> of reading a
  property of \<open>undefined\<close>, with the rejection of \<open>response.json()\<close>, or still in the
  selection loop when the random values given are used up.
\<close>

datatype outcome = Responded nat data | TypeError | JsonRejected | StillSelecting

text \<open>
  The handler, with the calls it made. Past the check of \<open>message\<close> the content is a
  string, which \<open>toString message\<close> then is.
\<close>

definition handler :: "world \<Rightarrow> call list \<times> outcome" where
  "handler w =
     (if reqMethod w \<noteq> Val (js ''POST'')
      then ([], Responded 405 (ErrorData (js ''This type of request is not supported.'')))
      else if \<not> catalogExists w
      then ([], Responded 500 (ErrorData (js ''Unable to retrieve memes.'')))
      else
        (case selectMeme (catalog w) (randoms w) of
           None \<Rightarrow> ([], StillSelecting)
         | Some Undefined \<Rightarrow> ([], TypeError)
         | Some Null \<Rightarrow> ([], TypeError)
         | Some (Val chosenMeme) \<Rightarrow>
             (let completion =
                    CreateChatCompletion (box_count chosenMeme) (name chosenMeme)
                      (description chosenMeme);
                  message = completionContent w
              in if message = Null \<or> message = Undefined \<or> message = Val []
                 then ([completion],
                       Responded 500 (ErrorData (js ''Unable to contact ChatGPT's servers.'')))
                 else
                   (let text = toString message;
                        caps = parseCaptions text;
                        invit = parseInvitation text;
                        body = requestBody chosenMeme (imgflipUsername w) (imgflipPassword w) caps;
                        response = render w
                    in if \<not> ok response \<or> invit = Undefined \<or> invit = Null \<or> invit = Val []
                          \<or> length caps = 0
                       then ([completion, CaptionImage body,
                              LogFailure (name chosenMeme) (id' chosenMeme) text caps invit
                                (statusText response)],
                             Responded 500 (ErrorData (js ''Unable to generate meme.'')))
                       else ([completion, CaptionImage body, GetCount,
                              SetDoc (newUuid w)
                                \<lparr>imgFlipMemeId = id' chosenMeme, captions = caps,
                                 invitation = invit, created = currentTime w,
                                 random' = storedCount w\<rparr>],
                             (case json response of
                                None \<Rightarrow> JsonRejected
                              | Some memeUrl \<Rightarrow>
                                  Responded 201 (MemeData memeUrl caps invit)))))))"

text \<open>What a run did to the document store, and whether it called the render API.\<close>

fun isStoreCall :: "call \<Rightarrow> bool" where
  "isStoreCall GetCount = True"
| "isStoreCall (SetDoc k d) = True"
| "isStoreCall c = False"

fun isRenderCall :: "call \<Rightarrow> bool" where
  "isRenderCall (CaptionImage b) = True"
| "isRenderCall c = False"

fun writes :: "call list \<Rightarrow> (jsstring \<times> storedMeme) list" where
  "writes [] = []"
| "writes (SetDoc k d # cs) = (k, d) # writes cs"
| "writes (c # cs) = writes cs"

section \<open>Concrete inputs\<close>

text \<open>Catalog entries, a model text and requests on which the theorems below are run.\<close>

definition drake :: meme where
  "drake =
     \<lparr>id' = js ''181913649'', name = js ''Drake Hotline Bling'',
      url = js ''https://i.imgflip.com/30b1gx.jpg'', box_count = 2,
      description = Val (js ''Drake rejects one thing and approves another'')\<rparr>"

definition undescribed :: meme where
  "undescribed =
     \<lparr>id' = js ''87743020'', name = js ''Two Buttons'',
      url = js ''https://i.imgflip.com/1g8my4.jpg'', box_count = 3,
      description = Undefined\<rparr>"

definition nullDescribed :: meme where
  "nullDescribed =
     \<lparr>id' = js ''87743020'', name = js ''Two Buttons'',
      url = js ''https://i.imgflip.com/1g8my4.jpg'', box_count = 3,
      description = Null\<rparr>"

definition goodText :: jsstring where
  "goodText =
     js ''Caption[1]: A'' @ [10] @ js ''Caption[2]: B'' @ [10] @ js ''Invitation: Come!''"

definition goodWorld :: world where
  "goodWorld =
     \<lparr>reqMethod = Val (js ''POST''), catalogExists = True,
      catalog = [nullDescribed, drake], randoms = [1 / 4, 1 / 2],
      completionContent = Val goodText,
      imgflipUsername = Val (js ''user''), imgflipPassword = Val (js ''secret''),
      render = \<lparr>ok = True, statusText = js ''OK'',
                json = Some (Val (js ''https://i.imgflip.com/abc.jpg''))\<rparr>,
      storedCount = 7, newUuid = js ''1b9d6bcd-bbfd-4b2d-9b5d-ab8dfbbd4bed'',
      currentTime = 1700000000\<rparr>"

definition silentWorld :: world where
  "silentWorld = goodWorld\<lparr>completionContent := Val []\<rparr>"



definition emptyWorld :: world where
  "emptyWorld = goodWorld\<lparr>catalog := []\<rparr>"

text \<open>
  Model texts with other lines around the three expected ones (the invitation line last,
  between the caption lines, and first), and one with a third caption.
\<close>

definition wrappedText :: jsstring where
  "wrappedText =
     js ''Here are your captions'' @ [10] @ js ''Caption[1]: A'' @ [10] @ js ''Caption[2]: B''
     @ [13, 10] @ js ''Invitation: Come!'' @ [10] @ js ''Enjoy the gala''"

definition invitationBetween :: jsstring where
  "invitationBetween =
     js ''Caption[1]: A'' @ [10] @ js ''Invitation: Come!'' @ [10] @ js ''Caption[2]: B''"

definition invitationFirst :: jsstring where
  "invitationFirst =
     js ''Invitation: Come!'' @ [13, 10] @ js ''Caption[1]: A'' @ [10] @ js ''Caption[2]: B''
     @ [10]"

definition threeCaptions :: jsstring where
  "threeCaptions =
     js ''Caption[1]: A'' @ [10] @ js ''Caption[2]: B'' @ [10] @ js ''Caption[3]: C'' @ [10]
     @ js ''Invitation: Come!''"

section \<open>Where a pattern does not match\<close>

text \<open>
  \<open>quiet p seg rest\<close>: in the text \<open>seg @ rest\<close>, no match of the atoms of \<open>p\<close> starts inside
  \<open>seg\<close>. \<open>lineBreak s\<close>: \<open>s\<close> starts with a line terminator. They state what surrounds the
  lines of a model text.
\<close>

fun quiet :: "atom list \<Rightarrow> jsstring \<Rightarrow> jsstring \<Rightarrow> bool" where
  "quiet p [] rest = True"
| "quiet p (c # cs) rest = (matchAtoms p (c # cs @ rest) = None \<and> quiet p cs rest)"

fun lineBreak :: "jsstring \<Rightarrow> bool" where
  "lineBreak [] = False"
| "lineBreak (c # cs) = isLineTerminator c"

section \<open>Rounding to a double\<close>

lemma roundHalfEven_le: "of_int (roundHalfEven y) \<le> y + 1 / 2"
proof -
  have "of_int \<lfloor>y\<rfloor> \<le> y" by simp
  moreover have "y < of_int \<lfloor>y\<rfloor> + 1" by linarith
  ultimately show ?thesis
    unfolding roundHalfEven_def Let_def by (simp split: if_splits) linarith
qed

lemma roundHalfEven_of_int: "roundHalfEven (of_int k) = k"
  by (simp add: roundHalfEven_def)

lemma scale_ge: "53 \<le> scale"
  by (simp add: scale_def)

text \<open>Unless the spacing is the smallest one, the value is at least \<open>2^52\<close> spacings.\<close>

lemma spacing_bound:
  assumes "0 \<le> X" and p: "p = floorlog 2 (nat \<lfloor>X\<rfloor>) - 53"
  shows "p = 0 \<or> 2 ^ (p + 52) \<le> X"
proof (cases "p = 0")
  case True
  then show ?thesis by simp
next
  case False
  then have L: "floorlog 2 (nat \<lfloor>X\<rfloor>) = p + 53" using p by simp
  then have pos: "0 < nat \<lfloor>X\<rfloor>" by (auto simp: floorlog_def split: if_splits)
  from floorlog_bounds [OF pos, of 2] L have "(2::nat) ^ (p + 52) \<le> nat \<lfloor>X\<rfloor>"
    by (simp add: add.commute)
  then have "int (2 ^ (p + 52)) \<le> int (nat \<lfloor>X\<rfloor>)" by (rule iffD2 [OF of_nat_le_iff])
  then have "(2::int) ^ (p + 52) \<le> \<lfloor>X\<rfloor>" using pos by simp
  then have "of_int ((2::int) ^ (p + 52)) \<le> X" by (simp add: le_floor_iff)
  then show ?thesis by simp
qed

lemma below_power:
  assumes "X < 2 ^ e"
  shows "nat \<lfloor>X :: rat\<rfloor> < 2 ^ e"
proof -
  have "\<lfloor>X\<rfloor> < 2 ^ e" using assms by (simp add: floor_less_iff)
  then show ?thesis by (simp add: nat_less_iff)
qed

lemma power_above:
  assumes "nat \<lfloor>X :: rat\<rfloor> < 2 ^ e"
  shows "X < 2 ^ e"
proof -
  have "\<lfloor>X\<rfloor> < 2 ^ e" using assms by (simp add: nat_less_iff)
  then show ?thesis by (simp add: floor_less_iff)
qed

text \<open>The largest double below \<open>1\<close> is \<open>1 - 2^-53\<close>.\<close>

lemma double_below_one:
  assumes "isDouble r" and "r < 1"
  shows "r \<le> 1 - 1 / 2 ^ 53"
proof -
  define X where "X = r * 2 ^ scale"
  define p where "p = floorlog 2 (nat \<lfloor>X\<rfloor>) - 53"
  define k where "k = roundHalfEven (X / 2 ^ p)"
  have r: "r = of_int k * 2 ^ p / 2 ^ scale"
    using assms(1) unfolding isDouble_def roundDouble_def Let_def X_def p_def k_def by simp
  have "X < 2 ^ scale" using assms(2) by (simp add: X_def)
  then have "nat \<lfloor>X\<rfloor> < 2 ^ scale" by (rule below_power)
  then have "floorlog 2 (nat \<lfloor>X\<rfloor>) \<le> scale" by (intro floorlog_leI) simp_all
  then have "p + 53 \<le> scale \<or> p = 0" by (auto simp: p_def)
  then have "p + 53 \<le> scale" using scale_ge by auto
  then consider "scale = p + 53" | "floorlog 2 (nat \<lfloor>X\<rfloor>) < scale"
    unfolding p_def by linarith
  then show ?thesis
  proof cases
    case 1
    have "(2::rat) ^ scale = 2 ^ p * 2 ^ 53" unfolding 1 by (rule power_add)
    then have rk: "r = of_int k / 2 ^ 53" using r by simp
    then have "of_int k < (2::rat) ^ 53" using assms(2) by (simp add: divide_less_eq)
    then have "k < 2 ^ 53" by (metis of_int_less_iff of_int_numeral of_int_power)
    then have "k \<le> 2 ^ 53 - 1" by simp
    then have "(of_int k :: rat) \<le> of_int (2 ^ 53 - 1)" by (rule iffD2 [OF of_int_le_iff])
    then show ?thesis unfolding rk by (simp add: field_simps)
  next
    case 2
    then obtain e where e: "scale = Suc e" and "floorlog 2 (nat \<lfloor>X\<rfloor>) \<le> e"
      by (cases scale) auto
    then have "nat \<lfloor>X\<rfloor> < 2 ^ e" by (intro floorlog_leD) simp_all
    then have "X < 2 ^ e" by (rule power_above)
    then have "r * (2 * 2 ^ e) < 2 ^ e" by (simp add: X_def e)
    then have "r * 2 < 1" by simp
    then show ?thesis by simp
  qed
qed

text \<open>The rounded product of a double below \<open>1\<close> and a positive integer stays below it.\<close>

lemma product_below:
  assumes "isDouble r" and "0 \<le> r" and "r < 1" and "0 < n"
  shows "roundDouble (r * of_nat n) < of_nat n"
proof -
  define X where "X = r * of_nat n * 2 ^ scale"
  define p where "p = floorlog 2 (nat \<lfloor>X\<rfloor>) - 53"
  define M :: rat where "M = of_nat n * 2 ^ scale / 2 ^ p"
  have X0: "0 \<le> X" using assms(2) by (simp add: X_def)
  have Xn: "X < of_nat n * 2 ^ scale"
    using assms(3,4) by (simp add: X_def)
  have M: "2 ^ 52 < M"
  proof -
    from spacing_bound [OF X0 p_def] consider "p = 0" | "2 ^ (p + 52) \<le> X" by blast
    then show ?thesis
    proof cases
      case 1
      have "(2::rat) ^ 52 < 2 ^ scale" using scale_ge by (intro power_strict_increasing) simp_all
      also have "\<dots> \<le> of_nat n * 2 ^ scale" using assms(4) by simp
      finally show ?thesis using 1 by (simp add: M_def)
    next
      case 2
      then have "(2::rat) ^ 52 * 2 ^ p < of_nat n * 2 ^ scale"
        using Xn by (simp add: power_add mult.commute)
      then show ?thesis by (simp add: M_def pos_less_divide_eq)
    qed
  qed
  have Y: "X / 2 ^ p = r * M" by (simp add: X_def M_def)
  have "r * M \<le> (1 - 1 / 2 ^ 53) * M"
    using double_below_one [OF assms(1,3)] M by (intro mult_right_mono) simp_all
  also have "\<dots> = M - M / 2 ^ 53" by (simp add: algebra_simps)
  also have "\<dots> < M - 1 / 2" using M by simp
  finally have "r * M + 1 / 2 < M" by simp
  then have "of_int (roundHalfEven (X / 2 ^ p)) < M"
    using roundHalfEven_le [of "X / 2 ^ p"] Y by simp
  then have "of_int (roundHalfEven (X / 2 ^ p)) * 2 ^ p / 2 ^ scale < M * 2 ^ p / 2 ^ scale"
    by (simp add: divide_strict_right_mono)
  also have "M * 2 ^ p / 2 ^ scale = of_nat n" by (simp add: M_def)
  finally show ?thesis
    unfolding roundDouble_def Let_def X_def [symmetric] p_def [symmetric] .
qed

text \<open>A number with at most 53 significant bits and at most 1074 binary places is a double.\<close>

lemma roundDouble_dyadic:
  assumes "0 < m" and "m < 2 ^ 53" and "k \<le> scale"
  shows "roundDouble (of_nat m / 2 ^ k) = of_nat m / 2 ^ k"
proof -
  obtain j where j: "scale = k + j" using assms(3) le_Suc_ex by blast
  define p where "p = floorlog 2 m + j - 53"
  have S: "(2::rat) ^ scale = 2 ^ k * 2 ^ j" unfolding j by (rule power_add)
  have X: "of_nat m / 2 ^ k * (2::rat) ^ scale = of_nat (m * 2 ^ j)" by (simp add: S)
  have fl: "nat \<lfloor>(of_nat (m * 2 ^ j) :: rat)\<rfloor> = m * 2 ^ j"
    by (metis floor_of_nat nat_int)
  have "floorlog 2 m \<le> 53" using assms(2) by (intro floorlog_leI) simp_all
  then have "p \<le> j" by (simp add: p_def)
  then obtain q where q: "j = p + q" using le_Suc_ex by blast
  have Y: "(of_nat (m * 2 ^ j) :: rat) / 2 ^ p = of_int (int (m * 2 ^ q))"
    by (simp add: q power_add)
  have "roundDouble (of_nat m / 2 ^ k)
        = of_int (roundHalfEven (of_nat (m * 2 ^ j) / 2 ^ p)) * 2 ^ p / 2 ^ scale"
    unfolding roundDouble_def Let_def X fl using assms(1) by (simp add: p_def)
  also have "\<dots> = of_int (int (m * 2 ^ q)) * 2 ^ p / 2 ^ scale"
    unfolding Y roundHalfEven_of_int ..
  also have "\<dots> = of_nat m / 2 ^ k" by (simp add: S q power_add)
  finally show ?thesis .
qed

lemma roundDouble_zero: "roundDouble 0 = 0"
  by (simp add: roundDouble_def roundHalfEven_def floorlog_def)

text \<open>A number with more than 53 significant bits is rounded at its 53rd bit.\<close>

lemma roundDouble_significand:
  assumes "0 < m" and "53 \<le> floorlog 2 m" and "k \<le> scale"
  shows "roundDouble (of_nat m / 2 ^ k)
         = of_int (roundHalfEven (of_nat m / 2 ^ (floorlog 2 m - 53)))
           * 2 ^ (floorlog 2 m - 53) / 2 ^ k"
proof -
  obtain j where j: "scale = k + j" using assms(3) le_Suc_ex by blast
  define s where "s = floorlog 2 m - 53"
  have S: "(2::rat) ^ scale = 2 ^ k * 2 ^ j" unfolding j by (rule power_add)
  have X: "of_nat m / 2 ^ k * (2::rat) ^ scale = of_nat (m * 2 ^ j)" by (simp add: S)
  have fl: "nat \<lfloor>(of_nat (m * 2 ^ j) :: rat)\<rfloor> = m * 2 ^ j"
    by (metis floor_of_nat nat_int)
  have p: "floorlog 2 (m * 2 ^ j) - 53 = s + j"
    using assms(1,2) by (simp add: s_def)
  have Y: "(of_nat (m * 2 ^ j) :: rat) / 2 ^ (s + j) = of_nat m / 2 ^ s"
    by (simp add: power_add)
  have "roundDouble (of_nat m / 2 ^ k)
        = of_int (roundHalfEven (of_nat m / 2 ^ s)) * 2 ^ (s + j) / 2 ^ scale"
    unfolding roundDouble_def Let_def X fl p Y ..
  also have "\<dots> = of_int (roundHalfEven (of_nat m / 2 ^ s)) * 2 ^ s / 2 ^ k"
    by (simp add: S power_add)
  finally show ?thesis unfolding s_def .
qed

text \<open>
  The rounding matters: for the double \<open>2573485501354569 / 2^52\<close> and seven entries the
  exact product is \<open>4 - 2^-52\<close>, halfway between two doubles, and the product in doubles
  is \<open>4\<close>: the index is \<open>4\<close>, not the \<open>3\<close> of the exact product.
\<close>

lemma bits_of_tie: "floorlog 2 18014398509481983 = 54"
proof (rule antisym)
  show "floorlog 2 18014398509481983 \<le> 54" by (rule floorlog_leI) simp_all
  show "54 \<le> floorlog 2 18014398509481983" by (rule floorlog_geI) simp_all
qed

lemma tie_to_even: "roundHalfEven (18014398509481983 / 2) = 9007199254740992"
  by code_simp

lemma product_rounds_up:
  "randomIndex (2573485501354569 / 2 ^ 52) 7 = 4
   \<and> nat \<lfloor>(2573485501354569 / 2 ^ 52 * of_nat 7 :: rat)\<rfloor> = 3"
proof
  have "(2573485501354569 / 2 ^ 52 * of_nat 7 :: rat) = of_nat 18014398509481983 / 2 ^ 52"
    by simp
  moreover have "roundDouble (of_nat 18014398509481983 / 2 ^ 52) = 4"
    using roundDouble_significand [of 18014398509481983 52]
    by (simp add: bits_of_tie tie_to_even scale_def)
  ultimately show "randomIndex (2573485501354569 / 2 ^ 52) 7 = 4"
    unfolding randomIndex_def by simp
  show "nat \<lfloor>(2573485501354569 / 2 ^ 52 * of_nat 7 :: rat)\<rfloor> = 3"
    by code_simp
qed

lemma quarter_and_half: "isDouble (1 / 4)" "isDouble (1 / 2)"
  using roundDouble_dyadic [of 1 2] roundDouble_dyadic [of 1 1]
  by (simp_all add: isDouble_def scale_def)

lemma index_of_quarter: "randomIndex (1 / 4) 2 = 0"
  using roundDouble_dyadic [of 1 1] by (simp add: randomIndex_def scale_def)

lemma index_of_half: "randomIndex (1 / 2) 2 = 1"
  using roundDouble_dyadic [of 1 0] by (simp add: randomIndex_def scale_def)

section \<open>The template selector\<close>

text \<open>The loop never exits on an entry whose description is \<open>null\<close>.\<close>

lemma selectMeme_exit_not_null:
  "selectMeme memes rs = Some c \<Longrightarrow> optDescription c \<noteq> Null"
  by (induction rs) (auto simp: Let_def split: if_splits)

lemma random_index_in_range:
  assumes "isDouble r" and "0 \<le> r" and "r < 1" and "0 < n"
  shows "randomIndex r n < n"
proof -
  have "\<lfloor>roundDouble (r * of_nat n)\<rfloor> < int n"
    using product_below [OF assms] by (simp add: floor_less_iff)
  then show ?thesis unfolding randomIndex_def using assms(4) by linarith
qed

lemma selectMeme_exit_entry:
  assumes "memes \<noteq> []" and "\<forall>r\<in>set rs. isDouble r \<and> 0 \<le> r \<and> r < 1"
    and "selectMeme memes rs = Some c"
  shows "\<exists>m. c = Val m \<and> m \<in> set memes"
  using assms(2,3)
proof (induction rs)
  case Nil
  then show ?case by simp
next
  case (Cons r rs)
  have "randomIndex r (length memes) < length memes"
    using random_index_in_range [of r "length memes"] assms(1) Cons.prems(1) by simp
  then show ?case using Cons
    by (auto simp: Let_def element_def split: if_splits)
qed

lemma selectMeme_empty: "selectMeme [] (r # rs) = Some Undefined"
  by (simp add: element_def)

section \<open>The paths of the handler\<close>

lemma handler_selected:
  assumes "reqMethod w = Val (js ''POST'')" and "catalogExists w"
    and "selectMeme (catalog w) (randoms w) = Some (Val m)"
  shows "handler w =
    (let completion = CreateChatCompletion (box_count m) (name m) (description m);
         message = completionContent w
     in if message = Null \<or> message = Undefined \<or> message = Val []
        then ([completion], Responded 500 (ErrorData (js ''Unable to contact ChatGPT's servers.'')))
        else
          (let text = toString message;
               caps = parseCaptions text;
               invit = parseInvitation text;
               body = requestBody m (imgflipUsername w) (imgflipPassword w) caps;
               response = render w
           in if \<not> ok response \<or> invit = Undefined \<or> invit = Null \<or> invit = Val [] \<or> length caps = 0
              then ([completion, CaptionImage body,
                     LogFailure (name m) (id' m) text caps invit (statusText response)],
                    Responded 500 (ErrorData (js ''Unable to generate meme.'')))
              else ([completion, CaptionImage body, GetCount,
                     SetDoc (newUuid w)
                       \<lparr>imgFlipMemeId = id' m, captions = caps, invitation = invit,
                        created = currentTime w, random' = storedCount w\<rparr>],
                    (case json response of
                       None \<Rightarrow> JsonRejected
                     | Some memeUrl \<Rightarrow> Responded 201 (MemeData memeUrl caps invit)))))"
  unfolding handler_def using assms by simp




lemma handler_no_content:
  assumes "reqMethod w = Val (js ''POST'')" and "catalogExists w"
    and "selectMeme (catalog w) (randoms w) = Some (Val m)"
    and "completionContent w = Undefined \<or> completionContent w = Null \<or> completionContent w = Val []"
  shows "handler w =
    ([CreateChatCompletion (box_count m) (name m) (description m)],
     Responded 500 (ErrorData (js ''Unable to contact ChatGPT's servers.'')))"
proof -
  have "completionContent w = Null \<or> completionContent w = Undefined \<or> completionContent w = Val []"
    using assms(4) by blast
  then show ?thesis
    unfolding handler_selected [OF assms(1-3)] Let_def by (rule if_P)
qed


lemma handler_stored:
  assumes "reqMethod w = Val (js ''POST'')" and "catalogExists w"
    and "selectMeme (catalog w) (randoms w) = Some (Val m)"
    and "completionContent w = Val message" and "message \<noteq> []"
    and "ok (render w)" and "parseInvitation message = Val invit" and "invit \<noteq> []"
    and "parseCaptions message \<noteq> []"
  shows "handler w =
    ([CreateChatCompletion (box_count m) (name m) (description m),
      CaptionImage (requestBody m (imgflipUsername w) (imgflipPassword w) (parseCaptions message)),
      GetCount,
      SetDoc (newUuid w)
        \<lparr>imgFlipMemeId = id' m, captions = parseCaptions message, invitation = Val invit,
         created = currentTime w, random' = storedCount w\<rparr>],
     (case json (render w) of
        None \<Rightarrow> JsonRejected
      | Some memeUrl \<Rightarrow> Responded 201 (MemeData memeUrl (parseCaptions message) (Val invit))))"
proof -
  have c: "\<not> (completionContent w = Null \<or> completionContent w = Undefined \<or> completionContent w = Val [])"
    using assms(4,5) by simp
  have f: "\<not> (\<not> ok (render w) \<or> parseInvitation message = Undefined \<or> parseInvitation message = Null
         \<or> parseInvitation message = Val [] \<or> length (parseCaptions message) = 0)"
    using assms(6-9) by simp
  show ?thesis
    unfolding handler_selected [OF assms(1-3)] Let_def if_not_P [OF c]
    unfolding assms(4) toString.simps if_not_P [OF f]
    unfolding assms(7) by (rule refl)
qed


section \<open>Evaluating the parser and the selector\<close>

lemmas parser_defs =
  parseCaptions_def captionMatches_def matchGlobal_def captionBracket_def captionSpaced_def
  captionPlain_def parseInvitation_def invitationMatch_def invitationSpace_def
  invitationNewline_def execAt_def lits_def js_def element_def isWhiteSpace_def
  isLineTerminator_def isDigit_def lastIndexOf_def substring_def Let_def

lemma goodText_captions:
  "parseCaptions goodText = [\<lparr>captionText = Val (js ''A'')\<rparr>, \<lparr>captionText = Val (js ''B'')\<rparr>]"
  by (simp add: goodText_def parser_defs)

lemma goodText_invitation: "parseInvitation goodText = Val (js ''Come!'')"
  by (simp add: goodText_def parser_defs)

lemma goodWorld_selects:
  "selectMeme [nullDescribed, drake] [1 / 4, 1 / 2] = Some (Val drake)"
  by (simp add: nullDescribed_def drake_def element_def
      index_of_quarter [unfolded numeral_2_eq_2] index_of_half [unfolded numeral_2_eq_2])

section \<open>Claims about the handler and the selector\<close>

text \<open>
  Claim C4: if the content of the chat completion is absent, \<open>null\<close> or the empty
  string, the endpoint responds with status 500 and an error message, and the run makes
  neither the render request nor any call to the document store (count or write).
\<close>

theorem empty_completion_responds_500:
  assumes "reqMethod w = Val (js ''POST'')" and "catalogExists w"
    and "selectMeme (catalog w) (randoms w) = Some (Val m)"
    and "completionContent w = Undefined \<or> completionContent w = Null \<or> completionContent w = Val []"
  shows "snd (handler w) = Responded 500 (ErrorData (js ''Unable to contact ChatGPT's servers.''))
       \<and> filter isRenderCall (fst (handler w)) = []
       \<and> filter isStoreCall (fst (handler w)) = []"
  by (simp add: handler_no_content [OF assms])

theorem empty_completion_responds_500_witness:
  "snd (handler silentWorld) = Responded 500 (ErrorData (js ''Unable to contact ChatGPT's servers.''))
   \<and> filter isRenderCall (fst (handler silentWorld)) = []
   \<and> filter isStoreCall (fst (handler silentWorld)) = []"
proof -
  have 1: "reqMethod silentWorld = Val (js ''POST'')"
    by (simp add: silentWorld_def goodWorld_def)
  have 2: "catalogExists silentWorld"
    by (simp add: silentWorld_def goodWorld_def)
  have 3: "selectMeme (catalog silentWorld) (randoms silentWorld) = Some (Val drake)"
    using goodWorld_selects by (simp add: silentWorld_def goodWorld_def)
  have 4: "completionContent silentWorld = Undefined \<or> completionContent silentWorld = Null
           \<or> completionContent silentWorld = Val []"
    by (simp add: silentWorld_def)
  show ?thesis by (rule empty_completion_responds_500 [OF 1 2 3 4])
qed




text \<open>
  Claim C9: with random values that are doubles of \<open>[0, 1)\<close>, the selection loop exits with
  an undefined selection exactly when the catalog is empty; and on an empty catalog the
  handler then fails with a \<open>TypeError\<close> (reading \<open>box_count\<close> of \<open>undefined\<close>) before any
  call is made, rather than sending a 500 response.
\<close>

theorem selection_undefined_iff_empty_catalog:
  assumes "\<forall>x\<in>set (r # rs). isDouble x \<and> 0 \<le> x \<and> x < 1"
  shows "(selectMeme memes (r # rs) = Some Undefined) = (memes = [])
       \<and> (reqMethod w = Val (js ''POST'') \<and> catalogExists w \<and> catalog w = [] \<and> randoms w = r # rs
            \<longrightarrow> handler w = ([], TypeError))"
proof (intro conjI impI)
  show "(selectMeme memes (r # rs) = Some Undefined) = (memes = [])"
  proof
    assume u: "selectMeme memes (r # rs) = Some Undefined"
    show "memes = []"
    proof (rule ccontr)
      assume "memes \<noteq> []"
      from selectMeme_exit_entry [OF this assms u] show False by simp
    qed
  next
    assume "memes = []"
    then show "selectMeme memes (r # rs) = Some Undefined"
      using selectMeme_empty [of r rs] by simp
  qed
next
  assume "reqMethod w = Val (js ''POST'') \<and> catalogExists w \<and> catalog w = [] \<and> randoms w = r # rs"
  then show "handler w = ([], TypeError)"
    by (simp add: handler_def selectMeme_empty del: selectMeme.simps)
qed

theorem selection_undefined_iff_empty_catalog_witness:
  "selectMeme [] [1 / 4, 1 / 2] = Some Undefined
   \<and> handler emptyWorld = ([], TypeError)
   \<and> selectMeme [nullDescribed, drake] [1 / 4, 1 / 2] \<noteq> Some Undefined"
proof -
  have r: "\<forall>x\<in>set [1 / 4, 1 / 2 :: rat]. isDouble x \<and> 0 \<le> x \<and> x < 1"
    using quarter_and_half by simp
  have w: "reqMethod emptyWorld = Val (js ''POST'') \<and> catalogExists emptyWorld
           \<and> catalog emptyWorld = [] \<and> randoms emptyWorld = [1 / 4, 1 / 2]"
    by (simp add: emptyWorld_def goodWorld_def)
  have n: "[nullDescribed, drake] \<noteq> []" by simp
  from selection_undefined_iff_empty_catalog [OF r, of "[]" emptyWorld] w
  have a: "selectMeme [] [1 / 4, 1 / 2] = Some Undefined \<and> handler emptyWorld = ([], TypeError)"
    by blast
  from selection_undefined_iff_empty_catalog [OF r, of "[nullDescribed, drake]" emptyWorld] n
  have "selectMeme [nullDescribed, drake] [1 / 4, 1 / 2] \<noteq> Some Undefined"
    by blast
  with a show ?thesis by blast
qed

text \<open>
  Claim C1: the selected template's description is never absent, whether absence is a
  missing key or \<open>null\<close>. The comment in the loop says that a meme with a hand-written
  description is chosen, but its condition compares with \<open>null\<close> only: an entry without
  the key \<open>description\<close> leaves the loop at once. Here the first random value picks such
  an entry of a catalog that also holds a described one, and it is selected.
\<close>

theorem missing_description_selected:
  "selectMeme [undescribed, drake] [1 / 4] = Some (Val undescribed)
   \<and> description undescribed = Undefined
   \<and> description drake = Val (js ''Drake rejects one thing and approves another'')"
  by (simp add: undescribed_def drake_def element_def
      index_of_quarter [unfolded numeral_2_eq_2])

text \<open>
  Claim C6: on a successful request (a non-empty model text that parses to a non-empty
  caption list and a non-empty invitation, and a successful render response whose body
  is read), the run writes exactly one document, under the generated identifier, with
  the count read just before the write as its index and the current time as its creation
  time, and the endpoint responds with status 201 and the rendered URL, the captions and
  the invitation.
\<close>

theorem successful_request_persists_once:
  assumes "reqMethod w = Val (js ''POST'')" and "catalogExists w"
    and "selectMeme (catalog w) (randoms w) = Some (Val m)"
    and "completionContent w = Val message" and "message \<noteq> []"
    and "ok (render w)" and "parseInvitation message = Val invit" and "invit \<noteq> []"
    and "parseCaptions message \<noteq> []"
    and "json (render w) = Some memeUrl"
  shows "writes (fst (handler w)) =
           [(newUuid w, \<lparr>imgFlipMemeId = id' m, captions = parseCaptions message,
                         invitation = Val invit, created = currentTime w,
                         random' = storedCount w\<rparr>)]
       \<and> filter isStoreCall (fst (handler w)) =
           [GetCount,
            SetDoc (newUuid w) \<lparr>imgFlipMemeId = id' m, captions = parseCaptions message,
                                invitation = Val invit, created = currentTime w,
                                random' = storedCount w\<rparr>]
       \<and> snd (handler w) =
           Responded 201 (MemeData memeUrl (parseCaptions message) (Val invit))"
  by (simp add: handler_stored [OF assms(1-9)] assms(10))

theorem successful_request_persists_once_witness:
  "writes (fst (handler goodWorld)) =
     [(js ''1b9d6bcd-bbfd-4b2d-9b5d-ab8dfbbd4bed'',
       \<lparr>imgFlipMemeId = js ''181913649'',
        captions = [\<lparr>captionText = Val (js ''A'')\<rparr>, \<lparr>captionText = Val (js ''B'')\<rparr>],
        invitation = Val (js ''Come!''), created = 1700000000, random' = 7\<rparr>)]
   \<and> snd (handler goodWorld) =
       Responded 201
         (MemeData (Val (js ''https://i.imgflip.com/abc.jpg''))
            [\<lparr>captionText = Val (js ''A'')\<rparr>, \<lparr>captionText = Val (js ''B'')\<rparr>]
            (Val (js ''Come!'')))"
proof -
  have 1: "reqMethod goodWorld = Val (js ''POST'')" by (simp add: goodWorld_def)
  have 2: "catalogExists goodWorld" by (simp add: goodWorld_def)
  have 3: "selectMeme (catalog goodWorld) (randoms goodWorld) = Some (Val drake)"
    using goodWorld_selects by (simp add: goodWorld_def)
  have 4: "completionContent goodWorld = Val goodText" by (simp add: goodWorld_def)
  have 5: "goodText \<noteq> []" by (simp add: goodText_def js_def)
  have 6: "ok (render goodWorld)" by (simp add: goodWorld_def)
  have 7: "parseInvitation goodText = Val (js ''Come!'')" by (rule goodText_invitation)
  have 8: "js ''Come!'' \<noteq> []" by (simp add: js_def)
  have 9: "parseCaptions goodText \<noteq> []" by (simp add: goodText_captions)
  have 10: "json (render goodWorld) = Some (Val (js ''https://i.imgflip.com/abc.jpg''))"
    by (simp add: goodWorld_def)
  have d: "id' drake = js ''181913649''" by (simp add: drake_def)
  have g: "newUuid goodWorld = js ''1b9d6bcd-bbfd-4b2d-9b5d-ab8dfbbd4bed''"
    "currentTime goodWorld = 1700000000" "storedCount goodWorld = 7"
    by (simp_all add: goodWorld_def)
  show ?thesis
    using successful_request_persists_once [OF 1 2 3 4 5 6 7 8 9 10]
    unfolding goodText_captions d g by blast
qed

section \<open>The last-resort invitation\<close>

lemma matchAtoms_literal_prefix:
  "matchAtoms (map Lit l @ p) s = Some r \<Longrightarrow> prefix l s"
proof (induction l arbitrary: s)
  case Nil
  then show ?case by simp
next
  case (Cons a l)
  then show ?case by (cases s) (auto split: if_splits)
qed

lemma matchFirst_Some_sublist:
  "matchFirst (map Lit l @ p) s = Some a \<Longrightarrow> sublist l s"
proof (induction s)
  case Nil
  then have "matchAtoms (map Lit l @ p) [] \<noteq> None"
    by (auto simp: execAt_def split: option.splits)
  then obtain r where "matchAtoms (map Lit l @ p) [] = Some r" by blast
  from matchAtoms_literal_prefix [OF this] show ?case by simp
next
  case (Cons c s)
  show ?case
  proof (cases "matchAtoms (map Lit l @ p) (c # s)")
    case None
    then have "matchFirst (map Lit l @ p) s = Some a"
      using Cons.prems by (simp add: execAt_def)
    from Cons.IH [OF this] show ?thesis by (simp add: sublist_Cons_right)
  next
    case (Some r)
    from matchAtoms_literal_prefix [OF this] show ?thesis
      by (simp add: sublist_Cons_right)
  qed
qed

lemma no_marker_no_match:
  assumes "\<not> sublist (js ''Invitation:'') message"
  shows "invitationMatch message = []"
proof -
  have "matchFirst invitationSpace message = None"
  proof (rule ccontr)
    assume "matchFirst invitationSpace message \<noteq> None"
    then obtain a where "matchFirst (map Lit (js ''Invitation:'') @ [Space]) message = Some a"
      by (auto simp: invitationSpace_def lits_def)
    from matchFirst_Some_sublist [OF this] assms show False by simp
  qed
  moreover have "matchFirst invitationNewline message = None"
  proof (rule ccontr)
    assume "matchFirst invitationNewline message \<noteq> None"
    then obtain a where "matchFirst (map Lit (js ''Invitation:'') @ [Lit 10]) message = Some a"
      by (auto simp: invitationNewline_def lits_def)
    from matchFirst_Some_sublist [OF this] assms show False by simp
  qed
  ultimately show ?thesis by (simp add: invitationMatch_def)
qed

lemma no_colon_no_marker:
  assumes "58 \<notin> set message"
  shows "\<not> sublist (js ''Invitation:'') message"
proof
  assume "sublist (js ''Invitation:'') message"
  then have "set (js ''Invitation:'') \<subseteq> set message" by (rule set_mono_sublist)
  moreover have "58 \<in> set (js ''Invitation:'')" by (simp add: js_def)
  ultimately show False using assms by blast
qed

lemma parseInvitation_fallback:
  "invitationMatch message = [] \<Longrightarrow>
   parseInvitation message = Val (substring message (lastIndexOf message 58 + 1))"
  by (simp add: parseInvitation_def)

lemma lastIndexFrom_absent:
  "ch \<notin> set s \<Longrightarrow> lastIndexFrom i found ch s = found"
  by (induction s arbitrary: i) auto

lemma lastIndexFrom_last:
  "ch \<notin> set b \<Longrightarrow> lastIndexFrom i found ch (a @ ch # b) = int (i + length a)"
  by (induction a arbitrary: i found) (auto simp: lastIndexFrom_absent)

lemma substring_after:
  "substring (a @ c # b) (int (length a) + 1) = b"
proof -
  have "nat (min (max (int (length a) + 1) 0) (int (length (a @ c # b)))) = Suc (length a)"
    by simp
  then show ?thesis unfolding substring_def by simp
qed

text \<open>
  Claim C8: for every model text that does not contain \<open>Invitation:\<close> and whose last colon
  is followed by the text \<open>b\<close> (which has no colon), the invitation is exactly \<open>b\<close>, with
  every character after that colon, a leading space included.
\<close>

theorem last_colon_fallback:
  assumes "\<not> sublist (js ''Invitation:'') message"
    and "message = a @ 58 # b" and "58 \<notin> set b"
  shows "parseInvitation message = Val b"
proof -
  have "lastIndexOf message 58 = int (length a)"
    using lastIndexFrom_last [OF assms(3), of 0 "- 1" a] assms(2) by (simp add: lastIndexOf_def)
  then show ?thesis
    using parseInvitation_fallback [OF no_marker_no_match [OF assms(1)]] assms(2)
    by (simp add: substring_after)
qed

theorem last_colon_fallback_witness:
  "parseInvitation (js ''Here you go: have fun'') = Val (js '' have fun'')"
proof -
  have 1: "\<not> sublist (js ''Invitation:'') (js ''Here you go: have fun'')"
    by (simp add: js_def sublist_Cons_right)
  have 2: "js ''Here you go: have fun'' = js ''Here you go'' @ 58 # js '' have fun''"
    by (simp add: js_def)
  have 3: "58 \<notin> set (js '' have fun'')" by (simp add: js_def)
  show ?thesis by (rule last_colon_fallback [OF 1 2 3])
qed

text \<open>
  Claim C10: for every model text without any colon (so without \<open>Invitation:\<close> either), the
  invitation is the whole text; hence for a non-empty text the invitation is none of
  the values (undefined, \<open>null\<close>, the empty string) that the handler rejects.
\<close>

theorem no_colon_whole_text:
  assumes "58 \<notin> set message"
  shows "parseInvitation message = Val message
       \<and> (message \<noteq> [] \<longrightarrow>
            \<not> (parseInvitation message = Undefined \<or> parseInvitation message = Null
               \<or> parseInvitation message = Val []))"
proof -
  have "lastIndexOf message 58 = - 1"
    using lastIndexFrom_absent [OF assms] by (simp add: lastIndexOf_def)
  then have "parseInvitation message = Val message"
    using parseInvitation_fallback [OF no_marker_no_match [OF no_colon_no_marker [OF assms]]]
    by (simp add: substring_def)
  then show ?thesis by simp
qed

theorem no_colon_whole_text_witness:
  "parseInvitation (js ''See you at the gala'') = Val (js ''See you at the gala'')
   \<and> parseInvitation (js ''See you at the gala'') \<noteq> Val []"
proof -
  have 1: "58 \<notin> set (js ''See you at the gala'')" by (simp add: js_def)
  have 2: "js ''See you at the gala'' \<noteq> []" by (simp add: js_def)
  from no_colon_whole_text [OF 1] 2 show ?thesis by blast
qed

section \<open>Caption and invitation lines\<close>

lemma matchAll_quiet: "quiet p seg rest \<Longrightarrow> matchAll p (seg @ rest) = matchAll p rest"
  by (induction seg) (simp_all add: execAt_def)

lemma matchFirst_quiet: "quiet p seg rest \<Longrightarrow> matchFirst p (seg @ rest) = matchFirst p rest"
  by (induction seg) (simp_all add: execAt_def)

lemma takeWhile_line:
  assumes "\<forall>c\<in>set l. \<not> isLineTerminator c" and "rest = [] \<or> lineBreak rest"
  shows "takeWhile (\<lambda>c. \<not> isLineTerminator c) (l @ rest) = l"
proof (cases rest)
  case Nil
  then show ?thesis using assms(1) by simp
next
  case (Cons t ts)
  then have "isLineTerminator t" using assms(2) by simp
  then show ?thesis using assms(1) Cons by (simp add: takeWhile_tail)
qed

lemmas pattern_defs =
  captionBracket_def invitationSpace_def lits_def js_def isWhiteSpace_def isLineTerminator_def
  isDigit_def

lemma matchAtoms_exact:
  "length h = length p \<Longrightarrow>
   matchAtoms p (h @ t) = (if list_all2 atomMatches p h then Some t else None)"
proof (induction p arbitrary: h)
  case Nil
  then show ?case by simp
next
  case (Cons a p)
  then obtain c cs where "h = c # cs" by (cases h) auto
  with Cons show ?case by simp
qed

lemma execAt_line:
  assumes "list_all2 atomMatches p h" and "\<forall>c\<in>set l. \<not> isLineTerminator c"
    and "rest = [] \<or> lineBreak rest"
  shows "execAt p (h @ l @ rest) = Some (h @ l, l)"
proof -
  have len: "length h = length p" using assms(1) by (simp add: list_all2_lengthD)
  have "matchAtoms p (h @ l @ rest) = Some (l @ rest)"
    using matchAtoms_exact [OF len, of "l @ rest"] assms(1) by simp
  then show ?thesis
    using takeWhile_line [OF assms(2,3)] len by (simp add: execAt_def)
qed

lemma caption1_here:
  assumes "lineBreak rest"
  shows "execAt captionBracket (js ''Caption[1]: A'' @ rest) = Some (js ''Caption[1]: A'', js ''A'')"
proof -
  have "list_all2 atomMatches captionBracket (js ''Caption[1]: '')"
    by (simp add: pattern_defs)
  from execAt_line [OF this, of "js ''A''" rest] assms show ?thesis
    by (simp add: js_def isLineTerminator_def)
qed

lemma caption2_here:
  assumes "rest = [] \<or> lineBreak rest"
  shows "execAt captionBracket (js ''Caption[2]: B'' @ rest) = Some (js ''Caption[2]: B'', js ''B'')"
proof -
  have "list_all2 atomMatches captionBracket (js ''Caption[2]: '')"
    by (simp add: pattern_defs)
  from execAt_line [OF this, of "js ''B''" rest] assms show ?thesis
    by (simp add: js_def isLineTerminator_def)
qed

lemma invitation_here:
  assumes "rest = [] \<or> lineBreak rest"
  shows "execAt invitationSpace (js ''Invitation: Come!'' @ rest)
         = Some (js ''Invitation: Come!'', js ''Come!'')"
proof -
  have "list_all2 atomMatches invitationSpace (js ''Invitation: '')"
    by (simp add: pattern_defs)
  from execAt_line [OF this, of "js ''Come!''" rest] assms show ?thesis
    by (simp add: js_def isLineTerminator_def)
qed

lemma matchAll_hit:
  assumes "execAt p (m @ rest) = Some (m, g)" and "m \<noteq> []"
  shows "matchAll p (m @ rest) = m # matchAll p rest"
proof -
  obtain c cs where m: "m = c # cs" using assms(2) by (cases m) auto
  have "drop (max 1 (length m)) (m @ rest) = rest" using m by simp
  then show ?thesis using assms(1) m by (simp del: drop_append)
qed

lemma matchFirst_hit:
  assumes "execAt p (m @ rest) = Some (m, g)"
  shows "matchFirst p (m @ rest) = Some [m, g]"
  using assms by (cases "m @ rest") simp_all

lemma lineBreak_append: "lineBreak s \<Longrightarrow> lineBreak (s @ t)"
  by (cases s) simp_all

lemma matchAll_no_text: "matchAll captionBracket [] = []"
  by (simp add: execAt_def captionBracket_def lits_def js_def)

lemma two_caption_lines:
  assumes "lineBreak s1" and "s2 = [] \<or> lineBreak s2"
    and "quiet captionBracket pre (js ''Caption[1]: A'' @ s1 @ js ''Caption[2]: B'' @ s2)"
    and "quiet captionBracket s1 (js ''Caption[2]: B'' @ s2)"
    and "quiet captionBracket s2 []"
  shows "matchAll captionBracket (pre @ js ''Caption[1]: A'' @ s1 @ js ''Caption[2]: B'' @ s2)
         = [js ''Caption[1]: A'', js ''Caption[2]: B'']"
proof -
  let ?t2 = "js ''Caption[2]: B'' @ s2"
  let ?t1 = "js ''Caption[1]: A'' @ s1 @ ?t2"
  have n: "js ''Caption[1]: A'' \<noteq> []" "js ''Caption[2]: B'' \<noteq> []" by (simp_all add: js_def)
  have rest: "matchAll captionBracket s2 = []"
    using matchAll_quiet [OF assms(5)] matchAll_no_text by (simp del: matchAll.simps)
  have "matchAll captionBracket (pre @ ?t1) = matchAll captionBracket ?t1"
    by (rule matchAll_quiet [OF assms(3)])
  also have "\<dots> = js ''Caption[1]: A'' # matchAll captionBracket (s1 @ ?t2)"
    by (rule matchAll_hit [OF caption1_here [OF lineBreak_append [OF assms(1)]] n(1)])
  also have "matchAll captionBracket (s1 @ ?t2) = matchAll captionBracket ?t2"
    by (rule matchAll_quiet [OF assms(4)])
  also have "\<dots> = js ''Caption[2]: B'' # matchAll captionBracket s2"
    by (rule matchAll_hit [OF caption2_here [OF assms(2)] n(2)])
  finally show ?thesis using rest by simp
qed

lemma first_invitation_line:
  assumes "s3 = [] \<or> lineBreak s3" and "quiet invitationSpace before (js ''Invitation: Come!'' @ s3)"
  shows "invitationMatch (before @ js ''Invitation: Come!'' @ s3)
         = [js ''Invitation: Come!'', js ''Come!'']"
proof -
  have "matchFirst invitationSpace (before @ js ''Invitation: Come!'' @ s3)
        = matchFirst invitationSpace (js ''Invitation: Come!'' @ s3)"
    by (rule matchFirst_quiet [OF assms(2)])
  also have "\<dots> = Some [js ''Invitation: Come!'', js ''Come!'']"
    by (rule matchFirst_hit [OF invitation_here [OF assms(1)]])
  finally show ?thesis by (simp add: invitationMatch_def)
qed

lemma split_caption_lines:
  "element (splitColonSpace (js ''Caption[1]: A'')) 1 = Val (js ''A'')"
  "element (splitColonSpace (js ''Caption[2]: B'')) 1 = Val (js ''B'')"
  by (simp_all add: js_def element_def)

lemma split_invitation_line:
  "element (splitColonSpace (orString (Val (js ''Invitation: Come!'')) (js '': ''))) 1
   = Val (js ''Come!'')"
  by (simp add: js_def element_def)

text \<open>
  Claim C7 says that every model text containing the lines \<open>Caption[1]: A\<close>,
  \<open>Caption[2]: B\<close> and \<open>Invitation: Come!\<close> yields the two captions and the invitation.
  The parser collects every match of the caption pattern, so a text that holds these
  lines and a third caption line yields three captions.
\<close>

theorem extra_caption_line_counted:
  "parseCaptions threeCaptions =
     [\<lparr>captionText = Val (js ''A'')\<rparr>, \<lparr>captionText = Val (js ''B'')\<rparr>,
      \<lparr>captionText = Val (js ''C'')\<rparr>]"
  by (simp add: threeCaptions_def parser_defs)

text \<open>
  Claim C7, as amended: for every model text that holds the line \<open>Caption[1]: A\<close> and,
  after it, the line \<open>Caption[2]: B\<close>, each ended by a line terminator or by the end of
  the text, with no other match of the bracketed caption pattern anywhere in the text,
  and that holds the line \<open>Invitation: Come!\<close>, ended likewise, with no match of the
  invitation pattern before it, the parser yields the captions \<open>A\<close>, \<open>B\<close> in this order and
  the invitation \<open>Come!\<close>. The invitation line may stand before, between or after the
  caption lines.
\<close>

theorem caption_and_invitation_lines:
  assumes caption_lines: "message = pre @ js ''Caption[1]: A'' @ s1 @ js ''Caption[2]: B'' @ s2"
    and breaks: "lineBreak s1" "s2 = [] \<or> lineBreak s2"
    and captions_only_there:
      "quiet captionBracket pre (js ''Caption[1]: A'' @ s1 @ js ''Caption[2]: B'' @ s2)"
      "quiet captionBracket s1 (js ''Caption[2]: B'' @ s2)"
      "quiet captionBracket s2 []"
    and invitation_line: "message = before @ js ''Invitation: Come!'' @ after"
    and invitation_break: "after = [] \<or> lineBreak after"
    and invitation_first_there: "quiet invitationSpace before (js ''Invitation: Come!'' @ after)"
  shows "parseCaptions message = [\<lparr>captionText = Val (js ''A'')\<rparr>, \<lparr>captionText = Val (js ''B'')\<rparr>]
       \<and> parseInvitation message = Val (js ''Come!'')"
proof
  have "matchAll captionBracket message = [js ''Caption[1]: A'', js ''Caption[2]: B'']"
    unfolding caption_lines by (rule two_caption_lines [OF breaks captions_only_there])
  then have "captionMatches message = [js ''Caption[1]: A'', js ''Caption[2]: B'']"
    by (simp add: captionMatches_def matchGlobal_def)
  then show "parseCaptions message
             = [\<lparr>captionText = Val (js ''A'')\<rparr>, \<lparr>captionText = Val (js ''B'')\<rparr>]"
    unfolding parseCaptions_def using split_caption_lines by simp
next
  have im: "invitationMatch message = [js ''Invitation: Come!'', js ''Come!'']"
    unfolding invitation_line
    by (rule first_invitation_line [OF invitation_break invitation_first_there])
  have e0: "element [js ''Invitation: Come!'', js ''Come!''] 0 = Val (js ''Invitation: Come!'')"
    by (simp add: element_def)
  show "parseInvitation message = Val (js ''Come!'')"
    unfolding parseInvitation_def im Let_def e0 using split_invitation_line by simp
qed

theorem caption_and_invitation_lines_witness:
  "parseCaptions wrappedText = [\<lparr>captionText = Val (js ''A'')\<rparr>, \<lparr>captionText = Val (js ''B'')\<rparr>]
   \<and> parseInvitation wrappedText = Val (js ''Come!'')
   \<and> parseCaptions invitationBetween = [\<lparr>captionText = Val (js ''A'')\<rparr>, \<lparr>captionText = Val (js ''B'')\<rparr>]
   \<and> parseInvitation invitationBetween = Val (js ''Come!'')
   \<and> parseCaptions invitationFirst = [\<lparr>captionText = Val (js ''A'')\<rparr>, \<lparr>captionText = Val (js ''B'')\<rparr>]
   \<and> parseInvitation invitationFirst = Val (js ''Come!'')"
proof -
  let ?L1 = "js ''Caption[1]: A''"
  let ?L2 = "js ''Caption[2]: B''"
  let ?L3 = "js ''Invitation: Come!''"
  let ?nl = "[10] :: jsstring"
  have last:
    "parseCaptions wrappedText = [\<lparr>captionText = Val (js ''A'')\<rparr>, \<lparr>captionText = Val (js ''B'')\<rparr>]
     \<and> parseInvitation wrappedText = Val (js ''Come!'')"
  proof -
    let ?pre = "js ''Here are your captions'' @ [10]"
    let ?after = "[10] @ js ''Enjoy the gala''"
    let ?s2 = "[13, 10] @ ?L3 @ ?after"
    let ?before = "?pre @ ?L1 @ ?nl @ ?L2 @ [13, 10]"
    have c: "wrappedText = ?pre @ ?L1 @ ?nl @ ?L2 @ ?s2" by (simp add: wrappedText_def)
    have i: "wrappedText = ?before @ ?L3 @ ?after" by (simp add: wrappedText_def)
    have b: "lineBreak ?nl" "?s2 = [] \<or> lineBreak ?s2" "?after = [] \<or> lineBreak ?after"
      by (simp_all add: isLineTerminator_def)
    have q: "quiet captionBracket ?pre (?L1 @ ?nl @ ?L2 @ ?s2)"
      "quiet captionBracket ?nl (?L2 @ ?s2)" "quiet captionBracket ?s2 []"
      by (simp_all add: pattern_defs)
    have f: "quiet invitationSpace ?before (?L3 @ ?after)"
      by (simp add: pattern_defs)
    show ?thesis by (rule caption_and_invitation_lines [OF c b(1,2) q i b(3) f])
  qed
  have between:
    "parseCaptions invitationBetween = [\<lparr>captionText = Val (js ''A'')\<rparr>, \<lparr>captionText = Val (js ''B'')\<rparr>]
     \<and> parseInvitation invitationBetween = Val (js ''Come!'')"
  proof -
    let ?s1 = "?nl @ ?L3 @ ?nl"
    let ?before = "?L1 @ ?nl"
    let ?after = "?nl @ ?L2"
    have c: "invitationBetween = [] @ ?L1 @ ?s1 @ ?L2 @ []" by (simp add: invitationBetween_def)
    have i: "invitationBetween = ?before @ ?L3 @ ?after" by (simp add: invitationBetween_def)
    have b: "lineBreak ?s1" "([] :: jsstring) = [] \<or> lineBreak []" "?after = [] \<or> lineBreak ?after"
      by (simp_all add: isLineTerminator_def)
    have q: "quiet captionBracket [] (?L1 @ ?s1 @ ?L2 @ [])"
      "quiet captionBracket ?s1 (?L2 @ [])" "quiet captionBracket [] []"
      by (simp_all add: pattern_defs)
    have f: "quiet invitationSpace ?before (?L3 @ ?after)"
      by (simp add: pattern_defs)
    show ?thesis by (rule caption_and_invitation_lines [OF c b(1,2) q i b(3) f])
  qed
  have first:
    "parseCaptions invitationFirst = [\<lparr>captionText = Val (js ''A'')\<rparr>, \<lparr>captionText = Val (js ''B'')\<rparr>]
     \<and> parseInvitation invitationFirst = Val (js ''Come!'')"
  proof -
    let ?pre = "?L3 @ [13, 10]"
    let ?after = "[13, 10] @ ?L1 @ ?nl @ ?L2 @ ?nl"
    have c: "invitationFirst = ?pre @ ?L1 @ ?nl @ ?L2 @ ?nl" by (simp add: invitationFirst_def)
    have i: "invitationFirst = [] @ ?L3 @ ?after" by (simp add: invitationFirst_def)
    have b: "lineBreak ?nl" "?nl = [] \<or> lineBreak ?nl" "?after = [] \<or> lineBreak ?after"
      by (simp_all add: isLineTerminator_def)
    have q: "quiet captionBracket ?pre (?L1 @ ?nl @ ?L2 @ ?nl)"
      "quiet captionBracket ?nl (?L2 @ ?nl)" "quiet captionBracket ?nl []"
      by (simp_all add: pattern_defs)
    have f: "quiet invitationSpace [] (?L3 @ ?after)"
      by simp
    show ?thesis by (rule caption_and_invitation_lines [OF c b(1,2) q i b(3) f])
  qed
  from last between first show ?thesis by blast
qed

section \<open>Where the split loses text\<close>

text \<open>
  Claim C2 says that a text with \<open>Invitation:\<close>, a line break and the invitation on the
  next line yields that next line. The first pattern matches there (\<open>\s\<close> matches the line
  break) and its group is the next line, but the invitation is taken as the second piece
  of the matched text split at \<^verbatim>\<open>": "\<close>, and the matched text has no such separator: the
  invitation is undefined.
\<close>

theorem newline_invitation_lost:
  "invitationMatch (js ''Invitation:'' @ [10] @ js ''Come!'')
     = [js ''Invitation:'' @ [10] @ js ''Come!'', js ''Come!'']
   \<and> parseInvitation (js ''Invitation:'' @ [10] @ js ''Come!'') = Undefined"
  by (simp add: parser_defs)

text \<open>
  Claim C3 says that the caption of a matched line is everything after the first
  \<^verbatim>\<open>": "\<close>. The matched text is split at every \<^verbatim>\<open>": "\<close> and the second piece is taken:
  for the line \<open>Caption[1]: A: B\<close> the caption is \<open>A\<close>.
\<close>

theorem caption_cut_at_second_separator:
  "parseCaptions (js ''Caption[1]: A: B'') = [\<lparr>captionText = Val (js ''A'')\<rparr>]"
  by (simp add: parser_defs)

end
